theory Spec2Isabelle
  imports Main "HOL-Library.AList" "HOL-Library.Word"
begin

section \<open>Go strings: the library functions the router utilities call\<close>

text \<open>
  A Go string is a sequence of bytes, here a \<open>string\<close> (a list of 8-bit characters).
  The functions below are the ones of package \<open>strings\<close> that \<open>RouteUtils\<close> calls.
  \<open>Split\<close> and \<open>ReplaceAll\<close> are given for a non-empty separator, the only way the
  router calls them (the separator is always \<open>"/"\<close> or \<open>"//"\<close>); with an empty separator
  the model returns the input unsplit and unchanged.
\<close>

definition HasPrefix :: "string \<Rightarrow> string \<Rightarrow> bool" where
  "HasPrefix s prefix = (take (length prefix) s = prefix)"

definition HasSuffix :: "string \<Rightarrow> string \<Rightarrow> bool" where
  "HasSuffix s suffix =
     (length suffix \<le> length s \<and> drop (length s - length suffix) s = suffix)"

definition TrimSuffix :: "string \<Rightarrow> string \<Rightarrow> string" where
  "TrimSuffix s suffix =
     (if HasSuffix s suffix then take (length s - length suffix) s else s)"

fun Contains :: "string \<Rightarrow> string \<Rightarrow> bool" where
  "Contains [] substr = (substr = [])"
| "Contains (c # cs) substr = (HasPrefix (c # cs) substr \<or> Contains cs substr)"

function ReplaceAll :: "string \<Rightarrow> string \<Rightarrow> string \<Rightarrow> string" where
  "ReplaceAll s old new =
     (if s = [] \<or> old = [] then s
      else if HasPrefix s old then new @ ReplaceAll (drop (length old) s) old new
      else hd s # ReplaceAll (tl s) old new)"
  by pat_completeness auto
termination
  by (relation "measure (\<lambda>(s, old, new). length s)") auto

function split_from :: "string \<Rightarrow> string \<Rightarrow> string \<Rightarrow> string list" where
  "split_from cur s sep =
     (if s = [] \<or> sep = [] then [cur @ s]
      else if HasPrefix s sep then cur # split_from [] (drop (length sep) s) sep
      else split_from (cur @ [hd s]) (tl s) sep)"
  by pat_completeness auto
termination
  by (relation "measure (\<lambda>(cur, s, sep). length s)") auto

definition Split :: "string \<Rightarrow> string \<Rightarrow> string list" where
  "Split s sep = split_from [] s sep"

fun Join :: "string list \<Rightarrow> string \<Rightarrow> string" where
  "Join [] sep = []"
| "Join [p] sep = p"
| "Join (p # q # ps) sep = p @ sep @ Join (q # ps) sep"

section \<open>RouteUtils: MatchPath, ExtractParams, NormalizePath\<close>

text \<open>
  \<open>MatchPath\<close>: equal strings match; otherwise both are split at \<open>"/"\<close>, a different
  number of parts is a mismatch, and the parts of the pattern are walked with their
  index \<open>i\<close>: a part that begins with \<open>":"\<close> needs a non-empty path part, a part that
  begins with \<open>"*"\<close> ends the walk with a match, any other part has to be equal to
  the path part at the same index.
\<close>

fun match_parts :: "string list \<Rightarrow> nat \<Rightarrow> string list \<Rightarrow> bool" where
  "match_parts [] i pathParts = True"
| "match_parts (part # rest) i pathParts =
     (if HasPrefix part '':'' then
        (if pathParts ! i = [] then False else match_parts rest (Suc i) pathParts)
      else if HasPrefix part ''*'' then True
      else if part \<noteq> pathParts ! i then False
      else match_parts rest (Suc i) pathParts)"

definition MatchPath :: "string \<Rightarrow> string \<Rightarrow> bool" where
  "MatchPath pattern path =
     (if pattern = path then True
      else let patternParts = Split pattern ''/''; pathParts = Split path ''/''
           in if length patternParts \<noteq> length pathParts then False
              else match_parts patternParts 0 pathParts)"

text \<open>
  \<open>ExtractParams\<close>: the result is a Go map from names to values, here a partial
  function. A different number of parts returns the empty map. In the walk a \<open>":"\<close>
  part binds its name (the part without its first byte) to the path part at the same
  index; a \<open>"*"\<close> part binds its name to the path parts from index \<open>i\<close> on, joined by
  \<open>"/"\<close>, and leaves the loop.
\<close>

fun extract_parts ::
  "string list \<Rightarrow> nat \<Rightarrow> string list \<Rightarrow> (string \<rightharpoonup> string) \<Rightarrow> (string \<rightharpoonup> string)" where
  "extract_parts [] i pathParts params = params"
| "extract_parts (part # rest) i pathParts params =
     (if HasPrefix part '':'' then
        extract_parts rest (Suc i) pathParts (params(tl part \<mapsto> pathParts ! i))
      else if HasPrefix part ''*'' then
        params(tl part \<mapsto> Join (drop i pathParts) ''/'')
      else extract_parts rest (Suc i) pathParts params)"

definition ExtractParams :: "string \<Rightarrow> string \<Rightarrow> (string \<rightharpoonup> string)" where
  "ExtractParams pattern path =
     (let patternParts = Split pattern ''/''; pathParts = Split path ''/''
      in if length patternParts \<noteq> length pathParts then Map.empty
         else extract_parts patternParts 0 pathParts Map.empty)"

text \<open>
  \<open>NormalizePath\<close>: the empty path is \<open>"/"\<close>; a leading slash is added when missing;
  one trailing slash is removed unless the path is \<open>"/"\<close>; then, as long as the path
  contains \<open>"//"\<close>, every \<open>"//"\<close> is replaced by \<open>"/"\<close>.
\<close>

declare ReplaceAll.simps [simp del]
declare split_from.simps [simp del]

lemma ReplaceAll_Nil: "ReplaceAll [] old new = []"
  by (subst ReplaceAll.simps) simp

lemma ReplaceAll_hit:
  "s \<noteq> [] \<Longrightarrow> old \<noteq> [] \<Longrightarrow> HasPrefix s old \<Longrightarrow>
   ReplaceAll s old new = new @ ReplaceAll (drop (length old) s) old new"
  by (subst ReplaceAll.simps) simp

lemma ReplaceAll_miss:
  "s \<noteq> [] \<Longrightarrow> old \<noteq> [] \<Longrightarrow> \<not> HasPrefix s old \<Longrightarrow>
   ReplaceAll s old new = hd s # ReplaceAll (tl s) old new"
  by (subst ReplaceAll.simps) simp

lemma HasPrefix_dslash_length: "HasPrefix s ''//'' \<Longrightarrow> 2 \<le> length s"
proof -
  assume "HasPrefix s ''//''"
  then have "take 2 s = ''//''" by (simp add: HasPrefix_def numeral_2_eq_2)
  from arg_cong[OF this, of length] show ?thesis by simp
qed

lemma ReplaceAll_dslash_hit:
  assumes "HasPrefix s ''//''"
  shows "ReplaceAll s ''//'' ''/'' = CHR ''/'' # ReplaceAll (drop 2 s) ''//'' ''/''"
proof -
  from assms have "s \<noteq> []" using HasPrefix_dslash_length by fastforce
  from ReplaceAll_hit[OF this _ assms, of "''/''"] show ?thesis
    by (simp add: numeral_2_eq_2)
qed

lemma ReplaceAll_dslash_miss:
  assumes "s \<noteq> []" and "\<not> HasPrefix s ''//''"
  shows "ReplaceAll s ''//'' ''/'' = hd s # ReplaceAll (tl s) ''//'' ''/''"
  using ReplaceAll_miss[OF assms(1) _ assms(2), of "''/''"] by simp

lemma ReplaceAll_length_le:
  "length (ReplaceAll s ''//'' ''/'') \<le> length s"
proof (induction "length s" arbitrary: s rule: less_induct)
  case less
  show ?case
  proof (cases "s = []")
    case True
    then show ?thesis by (simp add: ReplaceAll_Nil)
  next
    case False
    show ?thesis
    proof (cases "HasPrefix s ''//''")
      case True
      then have len: "2 \<le> length s" by (rule HasPrefix_dslash_length)
      then have "length (drop 2 s) < length s" by simp
      from less[OF this] have "length (ReplaceAll (drop 2 s) ''//'' ''/'') \<le> length s - 2"
        by simp
      then show ?thesis using len by (simp add: ReplaceAll_dslash_hit[OF True])
    next
      case nopre: False
      from False obtain c cs where s: "s = c # cs" by (cases s) auto
      then have "length cs < length s" by simp
      from less[OF this] have "length (ReplaceAll cs ''//'' ''/'') \<le> length cs" .
      moreover have "ReplaceAll s ''//'' ''/'' = c # ReplaceAll cs ''//'' ''/''"
        using ReplaceAll_dslash_miss[OF False nopre] s by simp
      ultimately show ?thesis using s by simp
    qed
  qed
qed

lemma ReplaceAll_shrinks:
  "Contains s ''//'' \<Longrightarrow> length (ReplaceAll s ''//'' ''/'') < length s"
proof (induction s)
  case Nil
  then show ?case by simp
next
  case (Cons c cs)
  show ?case
  proof (cases "HasPrefix (c # cs) ''//''")
    case True
    then have len: "2 \<le> length (c # cs)" by (rule HasPrefix_dslash_length)
    have "length (ReplaceAll (drop 2 (c # cs)) ''//'' ''/'') \<le> length (drop 2 (c # cs))"
      by (rule ReplaceAll_length_le)
    then have "length (ReplaceAll (drop 2 (c # cs)) ''//'' ''/'') \<le> length (c # cs) - 2"
      by simp
    then have "length (CHR ''/'' # ReplaceAll (drop 2 (c # cs)) ''//'' ''/'') < length (c # cs)"
      using len by simp
    then show ?thesis by (simp only: ReplaceAll_dslash_hit[OF True])
  next
    case False
    with Cons.prems have "Contains cs ''//''" by simp
    from Cons.IH[OF this] have "length (ReplaceAll cs ''//'' ''/'') < length cs" .
    moreover have "ReplaceAll (c # cs) ''//'' ''/'' = c # ReplaceAll cs ''//'' ''/''"
      using ReplaceAll_dslash_miss[OF _ False] by simp
    ultimately show ?thesis by simp
  qed
qed

function collapse_slashes :: "string \<Rightarrow> string" where
  "collapse_slashes path =
     (if Contains path ''//'' then collapse_slashes (ReplaceAll path ''//'' ''/'')
      else path)"
  by pat_completeness auto
termination
proof (relation "measure length")
  show "wf (measure length)" by simp
next
  fix path :: string
  assume "Contains path ''//''"
  then show "(ReplaceAll path ''//'' ''/'', path) \<in> measure length"
    by (simp add: ReplaceAll_shrinks)
qed

declare collapse_slashes.simps [simp del]

definition NormalizePath :: "string \<Rightarrow> string" where
  "NormalizePath path =
     (if path = [] then ''/''
      else let p1 = (if \<not> HasPrefix path ''/'' then ''/'' @ path else path);
               p2 = (if p1 \<noteq> ''/'' \<and> HasSuffix p1 ''/'' then TrimSuffix p1 ''/'' else p1)
           in collapse_slashes p2)"


section \<open>The response writer (pkg/response/writer.go)\<close>

text \<open>
  \<open>Writer\<close> embeds an \<open>http.ResponseWriter\<close> and records the status code, whether the
  response has been written, and the number of bytes. The embedded writer is an
  interface: it is modelled by the sequence of calls it has received. What its
  \<open>Write\<close> returns (the number of bytes it took and an error) is decided outside this
  code and is an argument of the model. The byte count \<open>size\<close> is a Go \<open>int\<close>, a 64-bit
  word whose addition wraps. The mutex is not modelled: the calls are taken one after
  the other.
\<close>

datatype wcall = WriteHeaderCall int | WriteCall string

record Writer =
  ResponseWriter :: "wcall list"
  statusCode :: int
  written :: bool
  size_bytes :: "64 word"

definition NewWriter :: "wcall list \<Rightarrow> Writer" where
  "NewWriter w = \<lparr>ResponseWriter = w, statusCode = 200, written = False, size_bytes = 0\<rparr>"

definition WriteHeader :: "Writer \<Rightarrow> int \<Rightarrow> Writer" where
  "WriteHeader w code =
     (if written w then w
      else w\<lparr>statusCode := code,
             ResponseWriter := ResponseWriter w @ [WriteHeaderCall code]\<rparr>)"

definition Write ::
  "Writer \<Rightarrow> string \<Rightarrow> 64 word \<times> string option \<Rightarrow> Writer \<times> 64 word \<times> string option" where
  "Write w data res =
     (let w1 = (if \<not> written w
                then w\<lparr>ResponseWriter := ResponseWriter w @ [WriteHeaderCall (statusCode w)],
                       written := True\<rparr>
                else w);
          w2 = w1\<lparr>ResponseWriter := ResponseWriter w1 @ [WriteCall data]\<rparr>
      in (w2\<lparr>size_bytes := size_bytes w2 + fst res\<rparr>, res))"

definition Status :: "Writer \<Rightarrow> int" where
  "Status w = statusCode w"

definition Size :: "Writer \<Rightarrow> 64 word" where
  "Size w = size_bytes w"

definition Written :: "Writer \<Rightarrow> bool" where
  "Written w = written w"

section \<open>Handlers and the request context\<close>

text \<open>
  A \<open>context.HandlerFunc\<close> is a Go function \<open>func(*Context) error\<close>. A handler written
  by a user is modelled by its body, a list of statements: \<open>Emit l\<close> is a piece of
  observable work (it is recorded in the context), \<open>CallNext\<close> is \<open>err = c.Next()\<close>,
  \<open>ReturnErr\<close> is \<open>return err\<close> with the result of the latest \<open>c.Next()\<close> (\<open>nil\<close> when
  there was none), \<open>Fail e\<close> returns the error \<open>e\<close>, and the end of the list is
  \<open>return nil\<close>. The closure that \<open>Router.Handle\<close> and \<open>MiddlewareChain.Build\<close>
  create, \<open>func(c) { c.SetNext(next); return mw(c) }\<close>, is \<open>Chain mw next\<close>: the two
  handlers it has captured.
\<close>

datatype instr = Emit string | CallNext | ReturnErr | Fail string

datatype handler = Body "instr list" | Chain handler handler

text \<open>
  Modelled from the spec: package \<open>context\<close> (the type \<open>Context\<close> with \<open>SetNext\<close>,
  \<open>Next\<close>, \<open>SetParams\<close> and \<open>GetErrorHandler\<close>) is not among the sources. The spec gives the
  context a parameter map, a writer, the handler that \<open>next()\<close> invokes and a handle to
  the error handler; \<open>setNext(handler)\<close> installs the continuation and \<open>next()\<close> invokes
  it. Here \<open>c.Writer\<close> is the sequence of calls made on it, \<open>Next\<close> with no continuation
  installed returns \<open>nil\<close>, and the error handler is a body that depends on the error.
\<close>

record Context =
  params :: "string \<rightharpoonup> string"
  nxt :: "handler option"
  errorHandler :: "(string \<Rightarrow> instr list) option"
  Writer :: "wcall list"
  trace :: "string list"

definition SetNext :: "Context \<Rightarrow> handler \<Rightarrow> Context" where
  "SetNext c h = c\<lparr>nxt := Some h\<rparr>"

definition SetParams :: "Context \<Rightarrow> (string \<rightharpoonup> string) \<Rightarrow> Context" where
  "SetParams c ps = c\<lparr>params := ps\<rparr>"

definition GetErrorHandler :: "Context \<Rightarrow> (string \<Rightarrow> instr list) option" where
  "GetErrorHandler c = errorHandler c"

text \<open>
  Running a handler. A handler may call \<open>c.Next()\<close>, which runs whatever handler the
  context holds at that moment, so a call need not return; \<open>run\<close> takes the number of
  nested handler calls it may make and returns \<open>None\<close> when that is not enough. The
  result is the returned error (\<open>None\<close> for \<open>nil\<close>) and the context.
\<close>

type_synonym outcome = "string option \<times> Context"

fun exec ::
  "(handler \<Rightarrow> Context \<Rightarrow> outcome option) \<Rightarrow> string option \<Rightarrow> instr list \<Rightarrow> Context
     \<Rightarrow> outcome option" where
  "exec call err [] c = Some (None, c)"
| "exec call err (Emit l # body) c = exec call err body (c\<lparr>trace := trace c @ [l]\<rparr>)"
| "exec call err (CallNext # body) c =
     (case nxt c of
        None \<Rightarrow> exec call None body c
      | Some h \<Rightarrow>
          (case call h c of
             None \<Rightarrow> None
           | Some (e, c') \<Rightarrow> exec call e body c'))"
| "exec call err (ReturnErr # body) c = Some (err, c)"
| "exec call err (Fail e # body) c = Some (Some e, c)"

primrec run :: "nat \<Rightarrow> handler \<Rightarrow> Context \<Rightarrow> outcome option" where
  "run 0 h c = None"
| "run (Suc k) h c =
     (case h of
        Body body \<Rightarrow> exec (run k) None body c
      | Chain mw next \<Rightarrow> run k mw (SetNext c next))"

section \<open>The middleware chain (MiddlewareChain.Build and the loop of Router.Handle)\<close>

text \<open>
  Both \<open>MiddlewareChain.Build\<close> and \<open>Router.Handle\<close> run the same loop:
  \<open>for i := len(middleware) - 1; i >= 0; i-- { result = closure(middleware[i], result) }\<close>.
  The first argument of \<open>build_loop\<close> is \<open>i + 1\<close>. The loop only reads the slice, so
  the chain is given by the elements it holds when \<open>Build\<close> runs; \<open>MiddlewareChain.Add\<close>,
  which appends to the slice in place, is not modelled.
\<close>

fun build_loop :: "nat \<Rightarrow> handler list \<Rightarrow> handler \<Rightarrow> handler" where
  "build_loop 0 middleware result = result"
| "build_loop (Suc i) middleware result =
     build_loop i middleware (Chain (middleware ! i) result)"

record MiddlewareChain =
  chain_middleware :: "handler list"

definition NewMiddlewareChain :: "handler list \<Rightarrow> MiddlewareChain" where
  "NewMiddlewareChain middleware = \<lparr>chain_middleware = middleware\<rparr>"

definition Build :: "MiddlewareChain \<Rightarrow> handler \<Rightarrow> handler" where
  "Build mc h = build_loop (length (chain_middleware mc)) (chain_middleware mc) h"

text \<open>
  The behaviour the specification describes, written without the context's \<open>next\<close>
  field: a stage is given the behaviour of the stage after it (the error that stage
  returns and the work it records) and yields its own; its \<open>c.Next()\<close> is that next
  stage. \<open>spec_chain [m1, ..., mn] h\<close> nests the stages from \<open>m1\<close> inwards, \<open>h\<close> last.
\<close>

fun spec_stage ::
  "string option \<times> string list \<Rightarrow> string option \<Rightarrow> instr list \<Rightarrow> string option \<times> string list" where
  "spec_stage nextStage err [] = (None, [])"
| "spec_stage nextStage err (Emit l # body) =
     (fst (spec_stage nextStage err body), l # snd (spec_stage nextStage err body))"
| "spec_stage nextStage err (CallNext # body) =
     (fst (spec_stage nextStage (fst nextStage) body),
      snd nextStage @ snd (spec_stage nextStage (fst nextStage) body))"
| "spec_stage nextStage err (ReturnErr # body) = (err, [])"
| "spec_stage nextStage err (Fail e # body) = (Some e, [])"

fun spec_chain :: "instr list list \<Rightarrow> instr list \<Rightarrow> string option \<times> string list" where
  "spec_chain [] h = spec_stage (None, []) None h"
| "spec_chain (m # ms) h = spec_stage (spec_chain ms h) None m"

section \<open>The router (router/router.go, router/advanced.go)\<close>

text \<open>
  The radix tree (\<open>node\<close>, \<open>addRoute\<close>, \<open>getValue\<close>) is not among the sources. The router
  only calls it, so the tree is a type parameter and its two operations are arguments:
  \<open>addRoute root path handler\<close> returns the tree with the route inserted or the message
  of its panic, and \<open>getValue root path\<close> returns the handler (\<open>None\<close> for \<open>nil\<close>), the
  parameter map (\<open>None\<close> for \<open>nil\<close>) and the trailing-slash hint.

  \<open>Router.trees\<close> is a Go map from method names to trees; it is an association list
  here because \<open>ServeHTTP\<close> ranges over its keys. The fields \<open>routes\<close>, \<open>namedRoutes\<close> and
  \<open>constraints\<close> are read by neither \<open>Handle\<close> nor \<open>ServeHTTP\<close> and are left out.
\<close>

datatype error =
    MethodMustNotBeEmpty
  | PathMustBeginWithSlash string
  | HandlerMustNotBeNil
  | AddRoutePanic string

record 'tree Router =
  trees :: "(string \<times> 'tree) list"
  notFoundHandler :: "handler option"
  methodNotAllowedHandler :: "handler option"

definition New :: "'tree Router" where
  "New = \<lparr>trees = [], notFoundHandler = None, methodNotAllowedHandler = None\<rparr>"

definition SetNotFoundHandler :: "'tree Router \<Rightarrow> handler \<Rightarrow> 'tree Router" where
  "SetNotFoundHandler r h = r\<lparr>notFoundHandler := Some h\<rparr>"

definition SetMethodNotAllowedHandler :: "'tree Router \<Rightarrow> handler \<Rightarrow> 'tree Router" where
  "SetMethodNotAllowedHandler r h = r\<lparr>methodNotAllowedHandler := Some h\<rparr>"

text \<open>
  \<open>Handle\<close>: three checks that panic, then the tree of the method is fetched (a new empty
  node when there is none), the middleware is wrapped around the handler, and the
  route is inserted. A panic is the result \<open>Inl\<close>; a panic of \<open>addRoute\<close> is passed on.
\<close>

definition Handle ::
  "('tree \<Rightarrow> string \<Rightarrow> handler \<Rightarrow> string + 'tree) \<Rightarrow> 'tree \<Rightarrow> 'tree Router \<Rightarrow> string \<Rightarrow> string
     \<Rightarrow> handler option \<Rightarrow> handler list \<Rightarrow> error + 'tree Router" where
  "Handle addRoute emptyNode r method path handler middleware =
     (if method = [] then Inl MethodMustNotBeEmpty
      else if length path < 1 \<or> hd path \<noteq> CHR ''/'' then Inl (PathMustBeginWithSlash path)
      else case handler of
        None \<Rightarrow> Inl HandlerMustNotBeNil
      | Some h \<Rightarrow>
          (let root = (case map_of (trees r) method of None \<Rightarrow> emptyNode | Some t \<Rightarrow> t);
               finalHandler = build_loop (length middleware) middleware h
           in case addRoute root path finalHandler of
                Inl msg \<Rightarrow> Inl (AddRoutePanic msg)
              | Inr root' \<Rightarrow> Inr (r\<lparr>trees := AList.update method root' (trees r)\<rparr>)))"

text \<open>
  \<open>ServeHTTP\<close>. \<open>bind_params\<close> is \<open>if params != nil { c.SetParams(params) }\<close>;
  \<open>report_error\<close> is what follows the call of the handler: a returned error goes to the
  context's error handler when there is one. \<open>other_method_matches\<close> is the loop over
  the keys of \<open>r.trees\<close>, which leaves at the first other method whose tree has a handler
  for the path. \<open>respond\<close> is \<open>c.Writer.WriteHeader(status)\<close> followed by
  \<open>c.Writer.Write(body)\<close>.
\<close>

definition bind_params :: "(string \<rightharpoonup> string) option \<Rightarrow> Context \<Rightarrow> Context" where
  "bind_params ps c = (case ps of None \<Rightarrow> c | Some m \<Rightarrow> SetParams c m)"

definition report_error :: "nat \<Rightarrow> outcome option \<Rightarrow> Context option" where
  "report_error fuel res =
     (case res of
        None \<Rightarrow> None
      | Some (None, c') \<Rightarrow> Some c'
      | Some (Some err, c') \<Rightarrow>
          (case GetErrorHandler c' of
             None \<Rightarrow> Some c'
           | Some eh \<Rightarrow>
               (case exec (run fuel) None (eh err) c' of
                  None \<Rightarrow> None
                | Some (e, c'') \<Rightarrow> Some c'')))"

fun other_method_matches ::
  "('tree \<Rightarrow> string \<Rightarrow> handler option \<times> (string \<rightharpoonup> string) option \<times> bool)
     \<Rightarrow> (string \<times> 'tree) list \<Rightarrow> string list \<Rightarrow> string \<Rightarrow> string \<Rightarrow> bool" where
  "other_method_matches getValue ts [] method path = False"
| "other_method_matches getValue ts (m # ms) method path =
     (if m \<noteq> method then
        (case map_of ts m of
           None \<Rightarrow> other_method_matches getValue ts ms method path
         | Some root \<Rightarrow>
             (case fst (getValue root path) of
                Some handle \<Rightarrow> True
              | None \<Rightarrow> other_method_matches getValue ts ms method path))
      else other_method_matches getValue ts ms method path)"

definition respond :: "Context \<Rightarrow> int \<Rightarrow> string \<Rightarrow> Context" where
  "respond c status body = c\<lparr>Writer := Writer c @ [WriteHeaderCall status, WriteCall body]\<rparr>"

definition ServeHTTP ::
  "('tree \<Rightarrow> string \<Rightarrow> handler option \<times> (string \<rightharpoonup> string) option \<times> bool)
     \<Rightarrow> nat \<Rightarrow> 'tree Router \<Rightarrow> string \<Rightarrow> string \<Rightarrow> Context \<Rightarrow> Context option" where
  "ServeHTTP getValue fuel r method path c =
     (case (case map_of (trees r) method of
              None \<Rightarrow> None
            | Some root \<Rightarrow>
                (case getValue root path of
                   (Some handle, ps, tsr) \<Rightarrow> Some (handle, ps)
                 | (None, ps, tsr) \<Rightarrow> None)) of
        Some (handle, ps) \<Rightarrow> report_error fuel (run fuel handle (bind_params ps c))
      | None \<Rightarrow>
          if other_method_matches getValue (trees r) (map fst (trees r)) method path
          then Some (respond c 405 ''Method Not Allowed'')
          else Some (respond c 404 ''Not Found''))"

section \<open>Slices of handlers and route groups (group.go)\<close>

text \<open>
  \<open>Group.Group\<close>, \<open>Group.Use\<close> and \<open>Group.handle\<close> call Go's \<open>append\<close> on the group's
  middleware slice. A slice is a view of a backing array: the array, a length and a
  capacity (all slices here begin at the first element of their array). \<open>append\<close>
  writes the new elements into the array behind the slice when the capacity suffices,
  whatever other slices view that array, and copies to a new array otherwise. The
  store is the list of backing arrays, each given by the elements written so far; the
  nil slice has length and capacity 0 and no array.
\<close>

type_synonym store = "handler list list"

record hslice =
  slice_arr :: nat
  slice_len :: nat
  slice_cap :: nat

definition nil_slice :: hslice where
  "nil_slice = \<lparr>slice_arr = 0, slice_len = 0, slice_cap = 0\<rparr>"

definition elems :: "store \<Rightarrow> hslice \<Rightarrow> handler list" where
  "elems st s = (if slice_len s = 0 then [] else take (slice_len s) (st ! slice_arr s))"

text \<open>
  The slice Go makes for the arguments of a variadic call that are written one by one:
  a new array that holds exactly them, or the nil slice when there are none.
\<close>

definition variadic :: "store \<Rightarrow> handler list \<Rightarrow> store \<times> hslice" where
  "variadic st xs =
     (if xs = [] then (st, nil_slice)
      else (st @ [xs], \<lparr>slice_arr = length st, slice_len = length xs, slice_cap = length xs\<rparr>))"

text \<open>
  \<open>append(s, xs...)\<close>. The capacity of a new array is chosen by the Go runtime, not by
  this repository: \<open>growcap old needed\<close> is an argument. \<open>go_growcap\<close> is the runtime's
  rule for slices of fewer than 256 elements, before the allocator rounds the size up:
  the needed length when that is more than twice the old capacity, twice the old
  capacity otherwise.
\<close>

definition append_slice ::
  "(nat \<Rightarrow> nat \<Rightarrow> nat) \<Rightarrow> store \<Rightarrow> hslice \<Rightarrow> handler list \<Rightarrow> store \<times> hslice" where
  "append_slice growcap st s xs =
     (let n = slice_len s + length xs
      in if n \<le> slice_cap s then
           (st[slice_arr s := take (slice_len s) (st ! slice_arr s) @ xs
                               @ drop n (st ! slice_arr s)],
            s\<lparr>slice_len := n\<rparr>)
         else
           (st @ [elems st s @ xs],
            \<lparr>slice_arr = length st, slice_len = n, slice_cap = growcap (slice_cap s) n\<rparr>))"

definition go_growcap :: "nat \<Rightarrow> nat \<Rightarrow> nat" where
  "go_growcap old needed = (if 2 * old < needed then needed else 2 * old)"

text \<open>
  A \<open>Group\<close> holds a pointer to the router, a prefix and a middleware slice. The pointer
  is copied, never followed, by \<open>Group.Group\<close>; \<open>Group.handle\<close> follows it to call
  \<open>Router.Handle\<close>, so in the model the router is an argument of \<open>Group_handle\<close>. Each
  operation takes the store and returns it; its \<open>middleware\<close> parameter is a slice, whose
  elements are read from the store. \<open>Router.Handle\<close> only reads the slice it is handed,
  so it is given the elements.
\<close>

record Group =
  prefix :: string
  group_middleware :: hslice

definition Router_Group :: "string \<Rightarrow> hslice \<Rightarrow> Group" where
  "Router_Group pre middleware = \<lparr>prefix = pre, group_middleware = middleware\<rparr>"

definition Group_Group ::
  "(nat \<Rightarrow> nat \<Rightarrow> nat) \<Rightarrow> store \<Rightarrow> Group \<Rightarrow> string \<Rightarrow> hslice \<Rightarrow> store \<times> Group" where
  "Group_Group growcap st g pre middleware =
     (let (st', s) = append_slice growcap st (group_middleware g) (elems st middleware)
      in (st', \<lparr>prefix = prefix g @ pre, group_middleware = s\<rparr>))"

definition Group_Use ::
  "(nat \<Rightarrow> nat \<Rightarrow> nat) \<Rightarrow> store \<Rightarrow> Group \<Rightarrow> hslice \<Rightarrow> store \<times> Group" where
  "Group_Use growcap st g middleware =
     (let (st', s) = append_slice growcap st (group_middleware g) (elems st middleware)
      in (st', g\<lparr>group_middleware := s\<rparr>))"

definition Group_handle ::
  "('tree \<Rightarrow> string \<Rightarrow> handler \<Rightarrow> string + 'tree) \<Rightarrow> 'tree \<Rightarrow> (nat \<Rightarrow> nat \<Rightarrow> nat) \<Rightarrow> store
     \<Rightarrow> Group \<Rightarrow> 'tree Router \<Rightarrow> string \<Rightarrow> string \<Rightarrow> handler option \<Rightarrow> hslice
     \<Rightarrow> store \<times> (error + 'tree Router)" where
  "Group_handle addRoute emptyNode growcap st g r method path handler middleware =
     (let (st', allMiddleware) =
            append_slice growcap st (group_middleware g) (elems st middleware);
          fullPath = prefix g @ path
      in (st', Handle addRoute emptyNode r method fullPath handler (elems st' allMiddleware)))"

definition Group_GET ::
  "('tree \<Rightarrow> string \<Rightarrow> handler \<Rightarrow> string + 'tree) \<Rightarrow> 'tree \<Rightarrow> (nat \<Rightarrow> nat \<Rightarrow> nat) \<Rightarrow> store
     \<Rightarrow> Group \<Rightarrow> 'tree Router \<Rightarrow> string \<Rightarrow> handler option \<Rightarrow> hslice
     \<Rightarrow> store \<times> (error + 'tree Router)" where
  "Group_GET addRoute emptyNode growcap st g r path handler middleware =
     Group_handle addRoute emptyNode growcap st g r ''GET'' path handler middleware"

definition Group_POST ::
  "('tree \<Rightarrow> string \<Rightarrow> handler \<Rightarrow> string + 'tree) \<Rightarrow> 'tree \<Rightarrow> (nat \<Rightarrow> nat \<Rightarrow> nat) \<Rightarrow> store
     \<Rightarrow> Group \<Rightarrow> 'tree Router \<Rightarrow> string \<Rightarrow> handler option \<Rightarrow> hslice
     \<Rightarrow> store \<times> (error + 'tree Router)" where
  "Group_POST addRoute emptyNode growcap st g r path handler middleware =
     Group_handle addRoute emptyNode growcap st g r ''POST'' path handler middleware"

text \<open>
  A slice is well formed in a store when its length is within its capacity and, unless
  the capacity is 0, its array exists and holds at least \<open>slice_len\<close> elements.
\<close>

definition slice_ok :: "store \<Rightarrow> hslice \<Rightarrow> bool" where
  "slice_ok st s =
     (slice_len s \<le> slice_cap s \<and>
      (slice_cap s = 0 \<or> (slice_arr s < length st \<and> slice_len s \<le> length (st ! slice_arr s))))"

section \<open>Auxiliary definitions for the statements\<close>

text \<open>
  \<open>yields getValue r m path\<close>: the router has a tree for the method \<open>m\<close> and that tree
  returns a handler for \<open>path\<close>.
\<close>

definition yields ::
  "('tree \<Rightarrow> string \<Rightarrow> handler option \<times> (string \<rightharpoonup> string) option \<times> bool)
     \<Rightarrow> 'tree Router \<Rightarrow> string \<Rightarrow> string \<Rightarrow> bool" where
  "yields getValue r m path =
     (case map_of (trees r) m of
        None \<Rightarrow> False
      | Some root \<Rightarrow> fst (getValue root path) \<noteq> None)"

text \<open>
  Modelled from the spec: the radix tree is not among the sources, and the concrete
  inputs below need one. For patterns without \<open>:\<close> and \<open>*\<close> segments the spec's tree
  is a table of paths: inserting a pattern that already has a handler fails with
  "duplicate pattern", and the lookup of a path returns the handler inserted for
  exactly that path, with no parameters. The table is used at concrete inputs only;
  every general statement is about an arbitrary \<open>addRoute\<close> and \<open>getValue\<close>.
\<close>

definition static_addRoute ::
  "(string \<times> handler) list \<Rightarrow> string \<Rightarrow> handler \<Rightarrow> string + (string \<times> handler) list" where
  "static_addRoute t p h =
     (case map_of t p of
        None \<Rightarrow> Inr (t @ [(p, h)])
      | Some h' \<Rightarrow> Inl ''duplicate pattern'')"

definition static_getValue ::
  "(string \<times> handler) list \<Rightarrow> string
     \<Rightarrow> handler option \<times> (string \<rightharpoonup> string) option \<times> bool" where
  "static_getValue t p = (map_of t p, None, False)"

text \<open>
  Modelled from the spec: a second stand-in for the absent tree, for patterns with
  \<open>:name\<close> segments and no catch-all. The spec's parameter segment "matches one
  non-empty path segment" and is "captured as name -> segment value"; a static segment
  matches itself. The lookup returns the handler of the first pattern that matches
  segment by segment, with the captured map.
\<close>

fun bind_segments :: "string list \<Rightarrow> string list \<Rightarrow> (string \<rightharpoonup> string) option" where
  "bind_segments [] [] = Some Map.empty"
| "bind_segments (p # ps) (q # qs) =
     (if HasPrefix p '':'' then
        (if q = [] then None
         else (case bind_segments ps qs of
                 None \<Rightarrow> None
               | Some m \<Rightarrow> Some (m(tl p \<mapsto> q))))
      else if p = q then bind_segments ps qs
      else None)"
| "bind_segments ps qs = None"

fun param_getValue ::
  "(string \<times> handler) list \<Rightarrow> string
     \<Rightarrow> handler option \<times> (string \<rightharpoonup> string) option \<times> bool" where
  "param_getValue [] p = (None, None, False)"
| "param_getValue ((pattern, h) # t) p =
     (case bind_segments (Split pattern ''/'') (Split p ''/'') of
        Some m \<Rightarrow> (Some h, Some m, False)
      | None \<Rightarrow> param_getValue t p)"

text \<open>
  A router with the single route \<open>GET /exists\<close>, as in the repository's
  \<open>TestRouter_ErrorHandling\<close>, and a context that has just been reset.
\<close>

definition example_router :: "(string \<times> handler) list Router" where
  "example_router =
     \<lparr>trees = [(''GET'', [(''/exists'', Body [Emit ''ok''])])],
      notFoundHandler = None, methodNotAllowedHandler = None\<rparr>"

text \<open>
  A router with \<open>GET /users/:id\<close>, whose handler succeeds, and \<open>GET /fail\<close>, whose
  handler returns an error; and a context whose error handler records the error.
\<close>

definition users_router :: "(string \<times> handler) list Router" where
  "users_router =
     \<lparr>trees = [(''GET'', [(''/users/:id'', Body [Emit ''user'']),
                          (''/fail'', Body [Fail ''boom''])])],
      notFoundHandler = None, methodNotAllowedHandler = None\<rparr>"

definition reporting_context :: Context where
  "reporting_context =
     \<lparr>params = Map.empty, nxt = None,
      errorHandler = Some (\<lambda>err. [Emit (''error: '' @ err)]), Writer = [], trace = []\<rparr>"

definition fresh_context :: Context where
  "fresh_context =
     \<lparr>params = Map.empty, nxt = None, errorHandler = None, Writer = [], trace = []\<rparr>"

text \<open>
  Groups that share a backing array. \<open>mw name\<close> is a middleware that records its name and
  calls \<open>c.Next()\<close>. \<open>group_with_three\<close> is \<open>g := router.Group("/api")\<close> followed by
  \<open>g.Use(m1)\<close>, \<open>g.Use(m2)\<close>, \<open>g.Use(m3)\<close>; \<open>with_sub1\<close> adds \<open>sub1 := g.Group("/a", A)\<close>;
  \<open>with_sub2\<close> then adds \<open>sub2 := g.Group("/b", B)\<close>; \<open>with_parent_route\<close> is the store
  after \<open>g.GET("/p", h, X)\<close> instead. Each pair is the store and the group just made.
\<close>

definition mw :: "string \<Rightarrow> handler" where
  "mw name = Body [Emit name, CallNext, ReturnErr]"

definition use_one :: "store \<times> Group \<Rightarrow> handler \<Rightarrow> store \<times> Group" where
  "use_one sg m =
     (let (st, a) = variadic (fst sg) [m] in Group_Use go_growcap st (snd sg) a)"

definition group_with_three :: "store \<times> Group" where
  "group_with_three =
     use_one (use_one (use_one ([], Router_Group ''/api'' nil_slice) (mw ''m1'')) (mw ''m2''))
       (mw ''m3'')"

definition with_sub1 :: "store \<times> Group" where
  "with_sub1 =
     (let (st, a) = variadic (fst group_with_three) [mw ''A'']
      in Group_Group go_growcap st (snd group_with_three) ''/a'' a)"

definition with_sub2 :: "store \<times> Group" where
  "with_sub2 =
     (let (st, a) = variadic (fst with_sub1) [mw ''B'']
      in Group_Group go_growcap st (snd group_with_three) ''/b'' a)"

definition with_parent_route :: store where
  "with_parent_route =
     (let (st, a) = variadic (fst with_sub1) [mw ''X'']
      in fst (Group_GET static_addRoute [] go_growcap st (snd group_with_three) New
                ''/p'' (Some (Body [Emit ''h''])) a))"

section \<open>Properties of the route utilities\<close>

lemma HasPrefix_star_colon: "\<not> HasPrefix (CHR ''*'' # name) '':''"
  by (simp add: HasPrefix_def)

lemma HasPrefix_star_star: "HasPrefix (CHR ''*'' # name) ''*''"
  by (simp add: HasPrefix_def)

lemma extract_parts_catch_all:
  "\<forall>p \<in> set ps. \<not> HasPrefix p ''*'' \<Longrightarrow>
   extract_parts (ps @ (CHR ''*'' # name) # rest) i pathParts acc name
     = Some (Join (drop (i + length ps) pathParts) ''/'')"
proof (induction ps arbitrary: i acc)
  case Nil
  show ?case by (simp add: HasPrefix_star_colon HasPrefix_star_star)
next
  case (Cons p ps)
  from Cons.prems have rest: "\<forall>q \<in> set ps. \<not> HasPrefix q ''*''"
    and here: "\<not> HasPrefix p ''*''" by simp_all
  show ?case using here Cons.IH[OF rest] by simp
qed

text \<open>
  C2 (the code at the failing input). The claim asks that a catch-all name is bound to
  the whole remainder of the path, \<open>{filepath: "/a/b.css"}\<close> for the pattern
  \<open>/static/*filepath\<close> and the path \<open>/static/a/b.css\<close>. \<open>ExtractParams\<close> compares the
  numbers of parts (three against four) before it walks them, so it returns the empty
  map and never reaches its branch "Join remaining path parts for wildcard"; the same
  happens at the input of its own test table, \<open>/static/css/main.css\<close>, where the test
  expects a binding for \<open>filepath\<close>.
\<close>

theorem ExtractParams_catch_all_two_segments:
  "ExtractParams ''/static/*filepath'' ''/static/a/b.css'' ''filepath'' = None
   \<and> ExtractParams ''/static/*filepath'' ''/static/css/main.css'' ''filepath'' = None"
  by code_simp

text \<open>
  What \<open>ExtractParams\<close> does when the numbers of parts agree: if the first part of the
  pattern that begins with \<open>*\<close> is \<open>*name\<close>, at index \<open>length ps\<close>, then \<open>name\<close> is bound to
  the parts of the path from that index on, joined by \<open>"/"\<close>.
\<close>

lemma ExtractParams_same_number_of_parts:
  assumes "Split pattern ''/'' = ps @ (CHR ''*'' # name) # rest"
    and "\<forall>p \<in> set ps. \<not> HasPrefix p ''*''"
    and "length (Split path ''/'') = length (Split pattern ''/'')"
  shows "ExtractParams pattern path name
           = Some (Join (drop (length ps) (Split path ''/'')) ''/'')"
proof -
  have "ExtractParams pattern path
          = extract_parts (Split pattern ''/'') 0 (Split path ''/'') Map.empty"
    using assms(3) by (simp add: ExtractParams_def Let_def)
  then show ?thesis
    using extract_parts_catch_all[OF assms(2), of name rest 0 "Split path ''/''" Map.empty]
    by (simp add: assms(1))
qed

lemma ExtractParams_single_segment:
  "ExtractParams ''/static/*filepath'' ''/static/a'' ''filepath'' = Some ''a''"
  by code_simp

text \<open>
  C9 (the code at the failing input). The claim asks \<open>MatchPath\<close> to accept a catch-all
  pattern however many segments the remainder has, and the repository's own test table
  expects \<open>MatchPath("/static/*filepath", "/static/css/main.css")\<close> to be true. The
  comparison of the numbers of parts comes before the walk, so a remainder of two
  segments is rejected.
\<close>

theorem MatchPath_catch_all_two_segments:
  "MatchPath ''/static/*filepath'' ''/static/css/main.css'' = False"
  by code_simp

text \<open>
  C10 (the code at the failing input). The claim asks that the result of
  \<open>NormalizePath\<close> never ends with \<open>/\<close> unless it is \<open>"/"\<close>, and that \<open>NormalizePath\<close> is
  idempotent. The one trailing slash is trimmed before the double slashes are
  collapsed, so \<open>"/a//"\<close> becomes \<open>"/a/"\<close>, which a second call turns into \<open>"/a"\<close>.
\<close>

theorem NormalizePath_trailing_slash_left:
  "NormalizePath ''/a//'' = ''/a/'' \<and> NormalizePath (NormalizePath ''/a//'') = ''/a''"
  by code_simp

text \<open>
  The other two parts of that description of \<open>NormalizePath\<close> hold for every input:
  the result begins with \<open>/\<close> and contains no \<open>//\<close>.
\<close>

lemma collapse_slashes_no_double: "\<not> Contains (collapse_slashes p) ''//''"
proof (induction p rule: collapse_slashes.induct)
  case (1 path)
  show ?case
  proof (cases "Contains path ''//''")
    case True
    then have "collapse_slashes path = collapse_slashes (ReplaceAll path ''//'' ''/'')"
      by (subst collapse_slashes.simps) simp
    with 1[OF True] show ?thesis by simp
  next
    case False
    then have "collapse_slashes path = path"
      by (subst collapse_slashes.simps) simp
    with False show ?thesis by simp
  qed
qed

lemma HasPrefix_slash: "HasPrefix p ''/'' = (p \<noteq> [] \<and> hd p = CHR ''/'')"
  by (cases p) (auto simp: HasPrefix_def)

lemma ReplaceAll_keeps_leading_slash:
  assumes "HasPrefix p ''/''"
  shows "HasPrefix (ReplaceAll p ''//'' ''/'') ''/''"
proof (cases "HasPrefix p ''//''")
  case True
  from ReplaceAll_dslash_hit[OF True] show ?thesis by (simp add: HasPrefix_slash)
next
  case False
  from assms have ne: "p \<noteq> []" and hd: "hd p = CHR ''/''" by (simp_all add: HasPrefix_slash)
  from ReplaceAll_dslash_miss[OF ne False] hd show ?thesis by (simp add: HasPrefix_slash)
qed

lemma collapse_slashes_keeps_leading_slash:
  "HasPrefix p ''/'' \<Longrightarrow> HasPrefix (collapse_slashes p) ''/''"
proof (induction p rule: collapse_slashes.induct)
  case (1 path)
  show ?case
  proof (cases "Contains path ''//''")
    case True
    then have eq: "collapse_slashes path = collapse_slashes (ReplaceAll path ''//'' ''/'')"
      by (subst collapse_slashes.simps) simp
    from 1(1)[OF True ReplaceAll_keeps_leading_slash[OF 1(2)]] eq show ?thesis by simp
  next
    case False
    then have "collapse_slashes path = path"
      by (subst collapse_slashes.simps) simp
    with 1(2) show ?thesis by simp
  qed
qed

lemma NormalizePath_leading_slash_no_double:
  "HasPrefix (NormalizePath p) ''/'' \<and> \<not> Contains (NormalizePath p) ''//''"
proof (cases "p = []")
  case True
  then show ?thesis by (simp add: NormalizePath_def HasPrefix_def)
next
  case False
  define p1 where "p1 = (if \<not> HasPrefix p ''/'' then ''/'' @ p else p)"
  define p2 where "p2 = (if p1 \<noteq> ''/'' \<and> HasSuffix p1 ''/'' then TrimSuffix p1 ''/'' else p1)"
  have l1: "HasPrefix p1 ''/''" by (auto simp: p1_def HasPrefix_slash)
  have l2: "HasPrefix p2 ''/''"
  proof (cases "p1 \<noteq> ''/'' \<and> HasSuffix p1 ''/''")
    case True
    from l1 obtain cs where p1: "p1 = CHR ''/'' # cs" by (cases p1) (auto simp: HasPrefix_slash)
    with True have "cs \<noteq> []" by auto
    with p1 True show ?thesis
      by (cases cs) (auto simp: p2_def TrimSuffix_def HasPrefix_slash)
  next
    case False
    with l1 show ?thesis by (auto simp: p2_def)
  qed
  have "NormalizePath p = collapse_slashes p2"
    using False by (simp add: NormalizePath_def p1_def p2_def Let_def)
  with l2 show ?thesis
    by (simp add: collapse_slashes_no_double collapse_slashes_keeps_leading_slash)
qed

section \<open>Properties of the response writer\<close>

lemma WriteHeader_before_Write:
  "\<not> written w \<Longrightarrow>
   WriteHeader (WriteHeader w c1) c2
     = w\<lparr>statusCode := c2,
          ResponseWriter := ResponseWriter w @ [WriteHeaderCall c1, WriteHeaderCall c2]\<rparr>"
  by (simp add: WriteHeader_def)

lemma WriteHeader_after_Write:
  "WriteHeader (fst (Write w d res)) code = fst (Write w d res)"
  by (simp add: WriteHeader_def Write_def Let_def)

lemma Write_after_WriteHeader:
  "ResponseWriter (fst (Write (WriteHeader (NewWriter []) 404) ''x'' (1, None)))
     = [WriteHeaderCall 404, WriteHeaderCall 404, WriteCall ''x'']"
  by (simp add: WriteHeader_def Write_def NewWriter_def Let_def)

text \<open>
  C4 (the code at the failing input). The claim asks that after \<open>WriteHeader(c1)\<close> a
  call \<open>WriteHeader(c2)\<close> is ignored: the status stays \<open>c1\<close> and nothing more reaches the
  underlying writer. \<open>WriteHeader\<close> tests the flag \<open>written\<close> but only \<open>Write\<close> sets it,
  so on a new writer \<open>WriteHeader(404)\<close> followed by \<open>WriteHeader(500)\<close> leaves the
  status 500 and forwards both calls.
\<close>

theorem WriteHeader_second_call_not_ignored:
  "Status (WriteHeader (WriteHeader (NewWriter []) 404) 500) = 500
   \<and> ResponseWriter (WriteHeader (WriteHeader (NewWriter []) 404) 500)
       = [WriteHeaderCall 404, WriteHeaderCall 500]"
  by (simp add: Status_def WriteHeader_def NewWriter_def)

section \<open>Properties of the middleware chain\<close>

lemma build_loop_foldr:
  "n \<le> length ms \<Longrightarrow> build_loop n ms result = foldr Chain (take n ms) result"
proof (induction n arbitrary: result)
  case 0
  show ?case by simp
next
  case (Suc n)
  then have lt: "n < length ms" by simp
  have "build_loop (Suc n) ms result = build_loop n ms (Chain (ms ! n) result)" by simp
  also have "\<dots> = foldr Chain (take n ms) (Chain (ms ! n) result)"
    using Suc.IH[of "Chain (ms ! n) result"] lt by simp
  also have "\<dots> = foldr Chain (take (Suc n) ms) result"
    by (simp add: take_Suc_conv_app_nth[OF lt])
  finally show ?case .
qed

lemma Build_foldr: "Build (NewMiddlewareChain ms) h = foldr Chain ms h"
  by (simp add: Build_def NewMiddlewareChain_def build_loop_foldr)

lemma exec_without_next:
  "CallNext \<notin> set body \<Longrightarrow>
   \<exists>c'. exec call err body c = Some (fst (spec_stage nextStage err body), c')
        \<and> trace c' = trace c @ snd (spec_stage nextStage err body)"
proof (induction body arbitrary: c)
  case Nil
  show ?case by simp
next
  case (Cons i body)
  from Cons.prems have rest: "CallNext \<notin> set body" and i: "i \<noteq> CallNext" by auto
  show ?case
  proof (cases i)
    case (Emit l)
    from Cons.IH[OF rest, of "c\<lparr>trace := trace c @ [l]\<rparr>"] Emit show ?thesis by auto
  next
    case CallNext
    with i show ?thesis by simp
  next
    case ReturnErr
    then show ?thesis by simp
  next
    case (Fail e)
    then show ?thesis by simp
  qed
qed

lemma exec_with_one_next:
  assumes "count_list body CallNext \<le> 1"
    and "nxt c = Some h'"
    and "\<And>c0. \<exists>c1. call h' c0 = Some (fst nextStage, c1) \<and> trace c1 = trace c0 @ snd nextStage"
  shows "\<exists>c'. exec call err body c = Some (fst (spec_stage nextStage err body), c')
        \<and> trace c' = trace c @ snd (spec_stage nextStage err body)"
  using assms(1,2)
proof (induction body arbitrary: c)
  case Nil
  show ?case by simp
next
  case (Cons i body)
  show ?case
  proof (cases i)
    case (Emit l)
    from Cons.prems Emit have cnt: "count_list body CallNext \<le> 1" by simp
    have nx: "nxt (c\<lparr>trace := trace c @ [l]\<rparr>) = Some h'" using Cons.prems(2) by simp
    from Cons.IH[OF cnt nx] Emit show ?thesis by auto
  next
    case CallNext
    with Cons.prems have rest: "CallNext \<notin> set body"
      by (auto simp: count_list_0_iff)
    from assms(3)[of c] obtain c1 where
      c1: "call h' c = Some (fst nextStage, c1)" "trace c1 = trace c @ snd nextStage" by blast
    from exec_without_next[OF rest, of call "fst nextStage" c1 nextStage] obtain c' where
      c': "exec call (fst nextStage) body c1
             = Some (fst (spec_stage nextStage (fst nextStage) body), c')"
          "trace c' = trace c1 @ snd (spec_stage nextStage (fst nextStage) body)" by blast
    from CallNext Cons.prems(2) c1 c' show ?thesis by simp
  next
    case ReturnErr
    then show ?thesis by simp
  next
    case (Fail e)
    then show ?thesis by simp
  qed
qed

lemma run_chain_spec:
  assumes "\<forall>m \<in> set ms. count_list m CallNext \<le> 1"
    and "CallNext \<notin> set h"
    and "2 * length ms < fuel"
  shows "\<exists>c'. run fuel (foldr Chain (map Body ms) (Body h)) c = Some (fst (spec_chain ms h), c')
        \<and> trace c' = trace c @ snd (spec_chain ms h)"
  using assms(1,3)
proof (induction ms arbitrary: fuel c)
  case Nil
  then obtain k where k: "fuel = Suc k" by (cases fuel) auto
  from exec_without_next[OF assms(2), of "run k" None c "(None, [])"] k
  show ?case by simp
next
  case (Cons m ms)
  from Cons.prems(2) obtain k where k: "fuel = Suc (Suc k)" and big: "2 * length ms < k"
    by (cases fuel; cases "fuel - 1") auto
  from Cons.prems(1) have one: "count_list m CallNext \<le> 1"
    and rest: "\<forall>m \<in> set ms. count_list m CallNext \<le> 1" by simp_all
  let ?R = "foldr Chain (map Body ms) (Body h)"
  have nextStage: "\<And>c0. \<exists>c1. run k ?R c0 = Some (fst (spec_chain ms h), c1)
                     \<and> trace c1 = trace c0 @ snd (spec_chain ms h)"
    using Cons.IH[OF rest big] by blast
  have nx: "nxt (SetNext c ?R) = Some ?R" by (simp add: SetNext_def)
  from exec_with_one_next[where call = "run k" and nextStage = "spec_chain ms h" and err = None,
      OF one nx nextStage] obtain c' where
    "exec (run k) None m (SetNext c ?R) = Some (fst (spec_stage (spec_chain ms h) None m), c')"
    "trace c' = trace (SetNext c ?R) @ snd (spec_stage (spec_chain ms h) None m)" by blast
  then show ?case using k by (simp add: SetNext_def)
qed

text \<open>
  C5. Let \<open>m1, ..., mn\<close> be middleware bodies that call \<open>c.Next()\<close> at most once each and
  \<open>h\<close> a terminal handler that does not call it. The handler that \<open>Build\<close> returns, run
  with room for \<open>2n + 1\<close> nested calls, returns, and it behaves as the nesting
  \<open>spec_chain\<close>: \<open>m1\<close> runs first, the \<open>c.Next()\<close> of a stage is the whole run of the stages
  after it (\<open>h\<close> after \<open>mn\<close>), the work of a stage before its \<open>c.Next()\<close> is recorded
  before that of the next stage and the work after it once the next stage has
  returned; a stage that does not call \<open>c.Next()\<close> ends the chain there. The loop of
  \<open>Router.Handle\<close> is the same \<open>build_loop\<close>.
\<close>

theorem Build_runs_stages_in_order:
  assumes "\<forall>m \<in> set ms. count_list m CallNext \<le> 1"
    and "CallNext \<notin> set h"
    and "2 * length ms < fuel"
  shows "\<exists>c'. run fuel (Build (NewMiddlewareChain (map Body ms)) (Body h)) c
                 = Some (fst (spec_chain ms h), c')
        \<and> trace c' = trace c @ snd (spec_chain ms h)"
  using run_chain_spec[OF assms] by (simp add: Build_foldr)

theorem Build_runs_stages_in_order_witness:
  "map_option fst
     (run 5 (Build (NewMiddlewareChain
                [Body [Emit ''mw1-start'', CallNext, Emit ''mw1-end'', ReturnErr],
                 Body [Emit ''mw2-start'', CallNext, Emit ''mw2-end'', ReturnErr]])
             (Body [Emit ''handler''])) fresh_context) = Some None
   \<and> map_option (trace \<circ> snd)
     (run 5 (Build (NewMiddlewareChain
                [Body [Emit ''mw1-start'', CallNext, Emit ''mw1-end'', ReturnErr],
                 Body [Emit ''mw2-start'', CallNext, Emit ''mw2-end'', ReturnErr]])
             (Body [Emit ''handler''])) fresh_context)
       = Some [''mw1-start'', ''mw2-start'', ''handler'', ''mw2-end'', ''mw1-end'']"
proof -
  let ?ms = "[[Emit ''mw1-start'', CallNext, Emit ''mw1-end'', ReturnErr],
              [Emit ''mw2-start'', CallNext, Emit ''mw2-end'', ReturnErr]]"
  have once: "\<forall>m \<in> set ?ms. count_list m CallNext \<le> 1" by simp
  have terminal: "CallNext \<notin> set [Emit ''handler'']" by simp
  have room: "2 * length ?ms < 5" by simp
  from Build_runs_stages_in_order[OF once terminal room, of fresh_context] obtain c' where
    "run 5 (Build (NewMiddlewareChain (map Body ?ms)) (Body [Emit ''handler''])) fresh_context
       = Some (fst (spec_chain ?ms [Emit ''handler'']), c')"
    "trace c' = trace fresh_context @ snd (spec_chain ?ms [Emit ''handler''])" by blast
  then show ?thesis by (simp add: fresh_context_def)
qed

text \<open>
  Why each stage may call \<open>c.Next()\<close> only once: the context has one \<open>next\<close> field, which
  every stage overwrites on entry. A first stage that calls \<open>c.Next()\<close> twice reaches the
  second stage the first time and the terminal handler, not the second stage, the
  second time.
\<close>

lemma second_Next_skips_a_stage:
  "map_option (trace \<circ> snd)
     (run 5 (Build (NewMiddlewareChain [Body [CallNext, CallNext], Body [Emit ''m2'', CallNext]])
             (Body [Emit ''h''])) fresh_context)
     = Some [''m2'', ''h'', ''h'']"
  by (simp add: Build_foldr eval_nat_numeral SetNext_def fresh_context_def)

text \<open>
  C6. For every middleware list, every split point \<open>k\<close> and every terminal handler \<open>h\<close>,
  building the first \<open>k\<close> middleware over the handler built from the rest over \<open>h\<close>
  gives a handler that cannot be told from the one built from the whole list: for
  every number of allowed nested calls and every context both runs have the same
  result.
\<close>

theorem Build_split:
  "run fuel (Build (NewMiddlewareChain (take k ms))
               (Build (NewMiddlewareChain (drop k ms)) h)) c
     = run fuel (Build (NewMiddlewareChain ms) h) c"
proof -
  have "foldr Chain (take k ms) (foldr Chain (drop k ms) h)
          = foldr Chain (take k ms @ drop k ms) h"
    by (simp only: foldr_append)
  then show ?thesis by (simp add: Build_foldr)
qed

section \<open>Properties of route groups\<close>

text \<open>
  What holds at the moment of each call, for a well-formed group slice: the slice that
  \<open>append\<close> returns holds the old elements followed by the new ones, so \<open>Group.handle\<close>
  hands \<open>Router.Handle\<close> the prefixed path and the group's middleware followed by the
  extra middleware, and a new sub-group starts with the concatenated prefix and
  middleware.
\<close>

lemma elems_append_slice:
  assumes "slice_ok st s"
  shows "elems (fst (append_slice growcap st s xs)) (snd (append_slice growcap st s xs))
           = elems st s @ xs"
proof (cases "slice_len s + length xs \<le> slice_cap s")
  case inplace: True
  show ?thesis
  proof (cases "slice_len s + length xs = 0")
    case True
    then show ?thesis using inplace by (simp add: append_slice_def elems_def Let_def)
  next
    case False
    with inplace assms have arr: "slice_arr s < length st"
      and len: "slice_len s \<le> length (st ! slice_arr s)"
      by (auto simp: slice_ok_def)
    from inplace False arr len show ?thesis
      by (auto simp: append_slice_def elems_def Let_def)
  qed
next
  case grow: False
  have "length (elems st s) = slice_len s"
    using assms grow by (auto simp: elems_def slice_ok_def)
  with grow show ?thesis
    by (auto simp: append_slice_def Let_def elems_def)
qed

lemma Group_handle_router_side:
  assumes "slice_ok st (group_middleware g)"
  shows "snd (Group_handle addRoute emptyNode growcap st g r method path handler middleware)
           = Handle addRoute emptyNode r method (prefix g @ path) handler
               (elems st (group_middleware g) @ elems st middleware)"
  using elems_append_slice[OF assms, of growcap "elems st middleware"]
  by (simp add: Group_handle_def Let_def split_beta)

lemma Group_Group_at_creation:
  assumes "slice_ok st (group_middleware g)"
  shows "prefix (snd (Group_Group growcap st g pre middleware)) = prefix g @ pre
         \<and> elems (fst (Group_Group growcap st g pre middleware))
                 (group_middleware (snd (Group_Group growcap st g pre middleware)))
             = elems st (group_middleware g) @ elems st middleware"
  using elems_append_slice[OF assms, of growcap "elems st middleware"]
  by (simp add: Group_Group_def Let_def split_beta)

text \<open>
  C7 (the code at the failing input). The claim asks that a sub-group made with
  \<open>(subprefix, mw)\<close> has the middleware \<open>G ++ mw\<close> and that registering through a group is
  the same as registering on the router. After three calls of \<open>Use\<close> the group's slice
  has length 3 and capacity 4, so \<open>sub1 := g.Group("/a", A)\<close> and
  \<open>sub2 := g.Group("/b", B)\<close> write \<open>A\<close> and then \<open>B\<close> into the same free slot of the
  shared array. \<open>sub1\<close> holds \<open>[m1, m2, m3, A]\<close> when it is made and \<open>[m1, m2, m3, B]\<close> once
  \<open>sub2\<close> exists, and a route registered through \<open>sub1\<close> is then wrapped in \<open>B\<close>, not in
  \<open>A\<close>. A route registered through \<open>g\<close> itself with the extra middleware \<open>X\<close> overwrites the
  slot in the same way, which a registration on the router would not do.
\<close>

theorem Group_Group_siblings_share_array:
  "elems (fst with_sub1) (group_middleware (snd with_sub1))
     = [mw ''m1'', mw ''m2'', mw ''m3'', mw ''A'']
   \<and> elems (fst with_sub2) (group_middleware (snd with_sub1))
     = [mw ''m1'', mw ''m2'', mw ''m3'', mw ''B'']
   \<and> snd (Group_GET static_addRoute [] go_growcap (fst with_sub2) (snd with_sub1) New
            ''/x'' (Some (Body [Emit ''h''])) nil_slice)
     = Handle static_addRoute [] New ''GET'' ''/api/a/x'' (Some (Body [Emit ''h'']))
         [mw ''m1'', mw ''m2'', mw ''m3'', mw ''B'']
   \<and> elems with_parent_route (group_middleware (snd with_sub1))
     = [mw ''m1'', mw ''m2'', mw ''m3'', mw ''X'']"
  by code_simp

section \<open>Properties of the router\<close>

text \<open>
  C8. \<open>Handle\<close> panics when the method is empty, when the path does not begin with
  \<open>/\<close>, or when the handler is \<open>nil\<close>, with the message of the first check that fails;
  with a non-empty method, a path that begins with \<open>/\<close> and a handler, none of the
  three checks fires and the result is that of inserting the wrapped handler into the
  tree of the method.
\<close>

theorem Handle_checks:
  "(method = [] \<or> path = [] \<or> hd path \<noteq> CHR ''/'' \<or> handler = None \<longrightarrow>
      Handle addRoute emptyNode r method path handler middleware
        \<in> {Inl MethodMustNotBeEmpty, Inl (PathMustBeginWithSlash path), Inl HandlerMustNotBeNil})
   \<and> (method = [] \<longrightarrow>
      Handle addRoute emptyNode r method path handler middleware = Inl MethodMustNotBeEmpty)
   \<and> (method \<noteq> [] \<and> (path = [] \<or> hd path \<noteq> CHR ''/'') \<longrightarrow>
      Handle addRoute emptyNode r method path handler middleware
        = Inl (PathMustBeginWithSlash path))
   \<and> (method \<noteq> [] \<and> path \<noteq> [] \<and> hd path = CHR ''/'' \<and> handler = None \<longrightarrow>
      Handle addRoute emptyNode r method path handler middleware = Inl HandlerMustNotBeNil)
   \<and> (method \<noteq> [] \<and> path \<noteq> [] \<and> hd path = CHR ''/'' \<and> handler = Some h \<longrightarrow>
      Handle addRoute emptyNode r method path handler middleware
        = (case addRoute
                  (case map_of (trees r) method of None \<Rightarrow> emptyNode | Some t \<Rightarrow> t) path
                  (build_loop (length middleware) middleware h) of
             Inl msg \<Rightarrow> Inl (AddRoutePanic msg)
           | Inr root' \<Rightarrow> Inr (r\<lparr>trees := AList.update method root' (trees r)\<rparr>)))"
  by (auto simp: Handle_def Let_def)

theorem Handle_checks_witness:
  "Handle static_addRoute [] New [] ''/a'' (Some (Body [])) [] = Inl MethodMustNotBeEmpty
   \<and> Handle static_addRoute [] New ''GET'' ''a'' (Some (Body [])) []
       = Inl (PathMustBeginWithSlash ''a'')
   \<and> Handle static_addRoute [] New ''GET'' ''/a'' None [] = Inl HandlerMustNotBeNil
   \<and> Handle static_addRoute [] New ''GET'' ''/a'' (Some (Body [])) [Body [CallNext]]
       = Inr \<lparr>trees = [(''GET'', [(''/a'', Chain (Body [CallNext]) (Body []))])],
              notFoundHandler = None, methodNotAllowedHandler = None\<rparr>"
proof -
  note a = Handle_checks[of "[]" "''/a''" "Some (Body [])" static_addRoute "[]" New "[]" "Body []"]
  note b = Handle_checks[of "''GET''" "''a''" "Some (Body [])" static_addRoute "[]" New "[]" "Body []"]
  note c = Handle_checks[of "''GET''" "''/a''" None static_addRoute "[]" New "[]" "Body []"]
  note d = Handle_checks[of "''GET''" "''/a''" "Some (Body [])" static_addRoute "[]" New
      "[Body [CallNext]]" "Body []"]
  have 1: "Handle static_addRoute [] New [] ''/a'' (Some (Body [])) [] = Inl MethodMustNotBeEmpty"
    using a by simp
  have 2: "Handle static_addRoute [] New ''GET'' ''a'' (Some (Body [])) []
             = Inl (PathMustBeginWithSlash ''a'')"
    using b by simp
  have 3: "Handle static_addRoute [] New ''GET'' ''/a'' None [] = Inl HandlerMustNotBeNil"
    using c by simp
  have 4: "Handle static_addRoute [] New ''GET'' ''/a'' (Some (Body [])) [Body [CallNext]]
       = Inr \<lparr>trees = [(''GET'', [(''/a'', Chain (Body [CallNext]) (Body []))])],
              notFoundHandler = None, methodNotAllowedHandler = None\<rparr>"
    using d by (simp add: New_def static_addRoute_def)
  from 1 2 3 4 show ?thesis by simp
qed

text \<open>
  The handler that \<open>Handle\<close> inserts is the one \<open>MiddlewareChain.Build\<close> makes from the
  same middleware and handler.
\<close>

lemma Handle_inserts_Build:
  "build_loop (length middleware) middleware h = Build (NewMiddlewareChain middleware) h"
  by (simp add: Build_def NewMiddlewareChain_def)

lemma other_method_matches_iff:
  "other_method_matches getValue ts ms method path
     = (\<exists>m \<in> set ms. m \<noteq> method \<and>
          (case map_of ts m of None \<Rightarrow> False | Some root \<Rightarrow> fst (getValue root path) \<noteq> None))"
  by (induction ms) (auto split: option.splits)

lemma other_method_matches_keys:
  "other_method_matches getValue (trees r) (map fst (trees r)) method path
     = (\<exists>m. m \<noteq> method \<and> yields getValue r m path)"
proof -
  have "\<And>m. yields getValue r m path \<Longrightarrow> m \<in> set (map fst (trees r))"
  proof -
    fix m
    assume "yields getValue r m path"
    then have "map_of (trees r) m \<noteq> None"
      by (auto simp: yields_def split: option.splits)
    then show "m \<in> set (map fst (trees r))"
      by (simp add: map_of_eq_None_iff)
  qed
  then show ?thesis
    unfolding other_method_matches_iff by (auto simp: yields_def)
qed

lemma lookup_miss:
  "\<not> yields getValue r method path \<Longrightarrow>
   (case map_of (trees r) method of
      None \<Rightarrow> None
    | Some root \<Rightarrow>
        (case getValue root path of
           (Some handle, ps, tsr) \<Rightarrow> Some (handle, ps)
         | (None, ps, tsr) \<Rightarrow> None)) = None"
  by (auto simp: yields_def split: option.splits prod.splits)

text \<open>
  C1. For every request \<open>(method, path)\<close>: when the tree registered for the method
  returns a handler for the path, \<open>ServeHTTP\<close> stores the parameter map the tree returned
  in the context (a nil map leaves the context as it is), invokes that handler on this
  context, and passes an error the handler returns to the context's error handler when
  there is one; otherwise, when the tree of some other method returns a handler for
  the path, it writes the status 405 and the body \<open>Method Not Allowed\<close>; otherwise it
  writes the status 404 and the body \<open>Not Found\<close>.
\<close>

theorem ServeHTTP_dispatch:
  "(map_of (trees r) method = Some root \<and> getValue root path = (Some handle, ps, tsr) \<longrightarrow>
      ServeHTTP getValue fuel r method path c
        = (case run fuel handle (case ps of None \<Rightarrow> c | Some m \<Rightarrow> c\<lparr>params := m\<rparr>) of
             None \<Rightarrow> None
           | Some (None, c') \<Rightarrow> Some c'
           | Some (Some err, c') \<Rightarrow>
               (case errorHandler c' of
                  None \<Rightarrow> Some c'
                | Some eh \<Rightarrow> map_option snd (exec (run fuel) None (eh err) c'))))
   \<and> (\<not> yields getValue r method path \<and> (\<exists>m. m \<noteq> method \<and> yields getValue r m path) \<longrightarrow>
      ServeHTTP getValue fuel r method path c = Some (respond c 405 ''Method Not Allowed''))
   \<and> (\<not> yields getValue r method path \<and> \<not> (\<exists>m. m \<noteq> method \<and> yields getValue r m path) \<longrightarrow>
      ServeHTTP getValue fuel r method path c = Some (respond c 404 ''Not Found''))"
proof (intro conjI impI)
  assume "map_of (trees r) method = Some root \<and> getValue root path = (Some handle, ps, tsr)"
  then have "ServeHTTP getValue fuel r method path c
        = report_error fuel (run fuel handle (bind_params ps c))"
    by (simp add: ServeHTTP_def)
  then show "ServeHTTP getValue fuel r method path c
        = (case run fuel handle (case ps of None \<Rightarrow> c | Some m \<Rightarrow> c\<lparr>params := m\<rparr>) of
             None \<Rightarrow> None
           | Some (None, c') \<Rightarrow> Some c'
           | Some (Some err, c') \<Rightarrow>
               (case errorHandler c' of
                  None \<Rightarrow> Some c'
                | Some eh \<Rightarrow> map_option snd (exec (run fuel) None (eh err) c')))"
    by (simp add: report_error_def bind_params_def SetParams_def GetErrorHandler_def
        split: option.splits prod.splits)
next
  assume a: "\<not> yields getValue r method path \<and> (\<exists>m. m \<noteq> method \<and> yields getValue r m path)"
  then have "other_method_matches getValue (trees r) (map fst (trees r)) method path"
    using other_method_matches_keys[of getValue r "method" "path"] by blast
  with a show "ServeHTTP getValue fuel r method path c
                 = Some (respond c 405 ''Method Not Allowed'')"
    by (simp add: ServeHTTP_def lookup_miss)
next
  assume a: "\<not> yields getValue r method path
             \<and> \<not> (\<exists>m. m \<noteq> method \<and> yields getValue r m path)"
  then have "\<not> other_method_matches getValue (trees r) (map fst (trees r)) method path"
    using other_method_matches_keys[of getValue r "method" "path"] by blast
  with a show "ServeHTTP getValue fuel r method path c = Some (respond c 404 ''Not Found'')"
    by (simp add: ServeHTTP_def lookup_miss)
qed

lemma yields_example:
  "yields static_getValue example_router m p = (m = ''GET'' \<and> p = ''/exists'')"
  by (auto simp: yields_def example_router_def static_getValue_def)

lemma Split_users_pattern: "Split ''/users/:id'' ''/'' = [[], ''users'', '':id'']"
  by code_simp

lemma Split_users_42: "Split ''/users/42'' ''/'' = [[], ''users'', ''42'']"
  by code_simp

lemma Split_fail: "Split ''/fail'' ''/'' = [[], ''fail'']"
  by code_simp

lemma users_lookup:
  "param_getValue [(''/users/:id'', Body [Emit ''user'']), (''/fail'', Body [Fail ''boom''])]
       ''/users/42''
     = (Some (Body [Emit ''user'']), Some [''id'' \<mapsto> ''42''], False)"
  by (simp add: Split_users_pattern Split_users_42 HasPrefix_def)

lemma fail_lookup:
  "param_getValue [(''/users/:id'', Body [Emit ''user'']), (''/fail'', Body [Fail ''boom''])]
       ''/fail''
     = (Some (Body [Fail ''boom'']), Some Map.empty, False)"
  by (simp add: Split_users_pattern Split_fail HasPrefix_def)

theorem ServeHTTP_dispatch_witness:
  "ServeHTTP param_getValue 1 users_router ''GET'' ''/users/42'' fresh_context
     = Some (fresh_context\<lparr>params := [''id'' \<mapsto> ''42''], trace := [''user'']\<rparr>)
   \<and> ServeHTTP param_getValue 1 users_router ''GET'' ''/fail'' reporting_context
     = Some (reporting_context\<lparr>trace := [''error: boom'']\<rparr>)
   \<and> ServeHTTP static_getValue 1 example_router ''GET'' ''/exists'' fresh_context
     = Some (fresh_context\<lparr>trace := [''ok'']\<rparr>)
   \<and> ServeHTTP static_getValue 1 example_router ''POST'' ''/exists'' fresh_context
     = Some (fresh_context\<lparr>Writer := [WriteHeaderCall 405, WriteCall ''Method Not Allowed'']\<rparr>)
   \<and> ServeHTTP static_getValue 1 example_router ''GET'' ''/nope'' fresh_context
     = Some (fresh_context\<lparr>Writer := [WriteHeaderCall 404, WriteCall ''Not Found'']\<rparr>)"
proof -
  let ?t = "[(''/users/:id'', Body [Emit ''user'']), (''/fail'', Body [Fail ''boom''])]"
  have tree: "map_of (trees users_router) ''GET'' = Some ?t"
    by (simp add: users_router_def)
  have bound: "ServeHTTP param_getValue 1 users_router ''GET'' ''/users/42'' fresh_context
     = Some (fresh_context\<lparr>params := [''id'' \<mapsto> ''42''], trace := [''user'']\<rparr>)"
    using ServeHTTP_dispatch[of users_router "''GET''" ?t param_getValue "''/users/42''"
        "Body [Emit ''user'']" "Some [''id'' \<mapsto> ''42'']" False 1 fresh_context]
      tree users_lookup
    by (simp add: fresh_context_def)
  have failed: "ServeHTTP param_getValue 1 users_router ''GET'' ''/fail'' reporting_context
     = Some (reporting_context\<lparr>trace := [''error: boom'']\<rparr>)"
    using ServeHTTP_dispatch[of users_router "''GET''" ?t param_getValue "''/fail''"
        "Body [Fail ''boom'']" "Some Map.empty" False 1 reporting_context]
      tree fail_lookup
    by (simp add: reporting_context_def)
  have hit: "map_of (trees example_router) ''GET'' = Some [(''/exists'', Body [Emit ''ok''])]
        \<and> static_getValue [(''/exists'', Body [Emit ''ok''])] ''/exists''
            = (Some (Body [Emit ''ok'']), None, False)"
    by (simp add: example_router_def static_getValue_def)
  have other: "\<not> yields static_getValue example_router ''POST'' ''/exists''
        \<and> (\<exists>m. m \<noteq> ''POST'' \<and> yields static_getValue example_router m ''/exists'')"
    by (simp add: yields_example)
  have none: "\<not> yields static_getValue example_router ''GET'' ''/nope''
        \<and> \<not> (\<exists>m. m \<noteq> ''GET'' \<and> yields static_getValue example_router m ''/nope'')"
    by (simp add: yields_example)
  have 1: "ServeHTTP static_getValue 1 example_router ''GET'' ''/exists'' fresh_context
     = Some (fresh_context\<lparr>trace := [''ok'']\<rparr>)"
    using ServeHTTP_dispatch[of example_router "''GET''" "[(''/exists'', Body [Emit ''ok''])]"
        static_getValue "''/exists''" "Body [Emit ''ok'']" None False 1 fresh_context] hit
    by (simp add: fresh_context_def)
  have 2: "ServeHTTP static_getValue 1 example_router ''POST'' ''/exists'' fresh_context
     = Some (fresh_context\<lparr>Writer := [WriteHeaderCall 405, WriteCall ''Method Not Allowed'']\<rparr>)"
    using ServeHTTP_dispatch[of example_router "''POST''" _ static_getValue "''/exists''"
        _ _ _ 1 fresh_context] other
    by (simp add: respond_def fresh_context_def)
  have 3: "ServeHTTP static_getValue 1 example_router ''GET'' ''/nope'' fresh_context
     = Some (fresh_context\<lparr>Writer := [WriteHeaderCall 404, WriteCall ''Not Found'']\<rparr>)"
    using ServeHTTP_dispatch[of example_router "''GET''" _ static_getValue "''/nope''"
        _ _ _ 1 fresh_context] none
    by (simp add: respond_def fresh_context_def)
  from bound failed 1 2 3 show ?thesis by simp
qed

lemma ServeHTTP_never_reads_custom_handlers:
  "ServeHTTP getValue fuel
       (r\<lparr>notFoundHandler := nf, methodNotAllowedHandler := mna\<rparr>) method path c
     = ServeHTTP getValue fuel r method path c"
  by (simp add: ServeHTTP_def)

text \<open>
  C3 (the code at the failing input). The claim asks that a handler installed with
  \<open>SetNotFoundHandler\<close> (or \<open>SetMethodNotAllowedHandler\<close>) is invoked in place of the
  default 404 (or 405) response. The setters store the handler, but \<open>ServeHTTP\<close> never
  reads the two fields: with both custom handlers installed on the router that has
  only \<open>GET /exists\<close>, \<open>GET /nope\<close> still gets the plain \<open>Not Found\<close> and \<open>POST /exists\<close>
  the plain \<open>Method Not Allowed\<close>, and neither custom handler leaves a trace.
\<close>

theorem ServeHTTP_custom_handlers_not_invoked:
  "ServeHTTP static_getValue 1
      (SetMethodNotAllowedHandler
         (SetNotFoundHandler example_router (Body [Emit ''custom 404'']))
         (Body [Emit ''custom 405'']))
      ''GET'' ''/nope'' fresh_context
     = Some (fresh_context\<lparr>Writer := [WriteHeaderCall 404, WriteCall ''Not Found'']\<rparr>)
   \<and> ServeHTTP static_getValue 1
      (SetMethodNotAllowedHandler
         (SetNotFoundHandler example_router (Body [Emit ''custom 404'']))
         (Body [Emit ''custom 405'']))
      ''POST'' ''/exists'' fresh_context
     = Some (fresh_context\<lparr>Writer := [WriteHeaderCall 405, WriteCall ''Method Not Allowed'']\<rparr>)"
  by (simp add: ServeHTTP_def SetNotFoundHandler_def SetMethodNotAllowedHandler_def
      example_router_def static_getValue_def respond_def fresh_context_def)

end
